theory Spec2Isabelle
  imports Complex_Main
begin

section \<open>JavaScript strings, numbers and patterns\<close>

text \<open>
  The two plugins of the repository (the wheel-zoom plugin and the keyboard-step plugin of
  \<^verbatim>\<open>src/main.ts\<close>) rewrite a size annotation in the text of a note. Strings are
  \<^typ>\<open>string\<close>; the sizes, which the program reads with \<^verbatim>\<open>parseInt\<close> and adds a step to,
  are \<^typ>\<open>int\<close> (JavaScript numbers are exact on integers of magnitude below \<open>2^53\<close>, and
  the model is about those); \<^verbatim>\<open>deltaY\<close>, of which only the sign is read, is \<^typ>\<open>real\<close>.
\<close>

definition isDigit :: "char \<Rightarrow> bool" where
  \<comment> \<open>the class \<^verbatim>\<open>\d\<close>\<close>
  "isDigit c \<longleftrightarrow> c \<in> set ''0123456789''"

definition digitValue :: "char \<Rightarrow> nat" where
  "digitValue c = of_char c - 48"

definition parseInt :: "string \<Rightarrow> int" where
  \<comment> \<open>\<^verbatim>\<open>parseInt\<close> on what \<^verbatim>\<open>(\d+)\<close> captures: a run of decimal digits\<close>
  "parseInt ds = int (foldl (\<lambda>acc c. 10 * acc + digitValue c) 0 ds)"

definition digitChar :: "nat \<Rightarrow> char" where
  "digitChar d = ''0123456789'' ! d"

fun decimal :: "nat \<Rightarrow> string" where
  "decimal n = (if n < 10 then [digitChar n] else decimal (n div 10) @ [digitChar (n mod 10)])"

declare decimal.simps [simp del]

definition numberToString :: "int \<Rightarrow> string" where
  \<comment> \<open>what a template literal \<^verbatim>\<open>${n}\<close> prints for an integer\<close>
  "numberToString n = (if n < 0 then CHR ''-'' # decimal (nat (- n)) else decimal (nat n))"

definition startsWith :: "string \<Rightarrow> string \<Rightarrow> bool" where
  "startsWith s pat \<longleftrightarrow> take (length pat) s = pat"

fun contains :: "string \<Rightarrow> string \<Rightarrow> bool" where
  \<comment> \<open>\<^verbatim>\<open>s.contains(pat)\<close>, the host's name for \<^verbatim>\<open>includes\<close>\<close>
  "contains [] pat = (pat = [])"
| "contains (c # cs) pat = (startsWith (c # cs) pat \<or> contains cs pat)"

fun lastIndexOf :: "string \<Rightarrow> char \<Rightarrow> int" where
  "lastIndexOf [] c = - 1"
| "lastIndexOf (x # xs) c =
     (let r = lastIndexOf xs c in if 0 \<le> r then r + 1 else if x = c then 0 else - 1)"

definition substring :: "string \<Rightarrow> int \<Rightarrow> int \<Rightarrow> string" where
  \<comment> \<open>\<^verbatim>\<open>s.substring(a, b)\<close>: both indices are clamped to the string and swapped if out of order\<close>
  "substring s a b =
     (let n = int (length s);
          a' = max 0 (min a n);
          b' = max 0 (min b n);
          lo = min a' b';
          hi = max a' b'
      in take (nat (hi - lo)) (drop (nat lo) s))"

definition substringFrom :: "string \<Rightarrow> int \<Rightarrow> string" where
  \<comment> \<open>\<^verbatim>\<open>s.substring(a)\<close>\<close>
  "substringFrom s a = substring s a (int (length s))"

subsection \<open>The replacement template of \<^verbatim>\<open>String.prototype.replace\<close>\<close>

text \<open>
  The second argument of \<^verbatim>\<open>replace\<close> is a template, not a plain string: \<^verbatim>\<open>$$\<close> stands for a
  dollar sign, \<^verbatim>\<open>$&\<close> for the matched text, \<^verbatim>\<open>$`\<close> and \<^verbatim>\<open>$'\<close> for the text before and after
  the match, and \<^verbatim>\<open>$n\<close>, \<^verbatim>\<open>$nn\<close> for a capture group when the pattern has that many groups.
  Every other character, and a \<^verbatim>\<open>$\<close> followed by anything else, stands for itself.
\<close>

definition captureIndex :: "char \<Rightarrow> nat" where
  "captureIndex d = digitValue d"

definition captureIndex2 :: "char \<Rightarrow> char \<Rightarrow> nat" where
  "captureIndex2 d e = 10 * digitValue d + digitValue e"

fun getSubstitution :: "string list \<Rightarrow> string \<Rightarrow> string \<Rightarrow> string \<Rightarrow> string \<Rightarrow> string" where
  "getSubstitution caps m b a [] = []"
| "getSubstitution caps m b a [c] = [c]"
| "getSubstitution caps m b a (c # d # r) =
     (if c \<noteq> CHR 0x24 then c # getSubstitution caps m b a (d # r)
      else if d = CHR 0x24 then CHR 0x24 # getSubstitution caps m b a r
      else if d = CHR ''&'' then m @ getSubstitution caps m b a r
      else if d = CHR 0x60 then b @ getSubstitution caps m b a r
      else if d = CHR 0x27 then a @ getSubstitution caps m b a r
      else if isDigit d then
        (case r of
           [] \<Rightarrow>
             if 1 \<le> captureIndex d \<and> captureIndex d \<le> length caps
             then caps ! (captureIndex d - 1)
             else [c, d]
         | e # r' \<Rightarrow>
             if isDigit e \<and> 1 \<le> captureIndex2 d e \<and> captureIndex2 d e \<le> length caps
             then caps ! (captureIndex2 d e - 1) @ getSubstitution caps m b a r'
             else if 1 \<le> captureIndex d \<and> captureIndex d \<le> length caps
             then caps ! (captureIndex d - 1) @ getSubstitution caps m b a r
             else c # d # getSubstitution caps m b a r)
      else c # getSubstitution caps m b a (d # r))"

subsection \<open>Searching for a string\<close>

fun indexOfSplit :: "string \<Rightarrow> string \<Rightarrow> (string \<times> string) option" where
  \<comment> \<open>the text before and after the first occurrence of \<open>pat\<close>\<close>
  "indexOfSplit [] pat = (if pat = [] then Some ([], []) else None)"
| "indexOfSplit (c # cs) pat =
     (if startsWith (c # cs) pat then Some ([], drop (length pat) (c # cs))
      else map_option (\<lambda>(b, a). (c # b, a)) (indexOfSplit cs pat))"

definition replaceString :: "string \<Rightarrow> string \<Rightarrow> string \<Rightarrow> string" where
  \<comment> \<open>\<^verbatim>\<open>s.replace(pat, template)\<close> with a string \<open>pat\<close>: the first occurrence only, no groups\<close>
  "replaceString s pat template =
     (case indexOfSplit s pat of
        None \<Rightarrow> s
      | Some (b, a) \<Rightarrow> b @ getSubstitution [] pat b a template @ a)"

subsection \<open>Patterns that capture a number\<close>

text \<open>
  The pattern \<^verbatim>\<open>/\|(\d+)\]/\<close> of the keyboard-step plugin is a literal text, a captured run
  of digits and a literal text; \<open>DigitsBetween pre post\<close> is the pattern
  \<^verbatim>\<open>/pre(\d+)post/\<close> with both texts escaped. The run is greedy and gives digits back when
  \<open>post\<close> does not follow. The other pattern of that plugin, \<^verbatim>\<open>/\]/\<close>, is one escaped
  character without a group: it matches where the string \<^verbatim>\<open>"]"\<close> occurs, and \<^verbatim>\<open>replace\<close>
  with it is \<open>replaceString\<close> with that string.
\<close>

datatype regExp = DigitsBetween string string

fun digitsThen :: "nat \<Rightarrow> string \<Rightarrow> string \<Rightarrow> string option" where
  \<comment> \<open>the longest run of at most \<open>k\<close> and at least one leading characters of \<open>r\<close> that \<open>post\<close> follows\<close>
  "digitsThen 0 r post = None"
| "digitsThen (Suc k) r post =
     (if startsWith (drop (Suc k) r) post then Some (take (Suc k) r) else digitsThen k r post)"

fun matchHere :: "regExp \<Rightarrow> string \<Rightarrow> (string \<times> string) option" where
  \<comment> \<open>a match at the start of the text: the matched text and the captured digits\<close>
  "matchHere (DigitsBetween pre post) s =
     (if startsWith s pre then
        (let r = drop (length pre) s in
         case digitsThen (length (takeWhile isDigit r)) r post of
           None \<Rightarrow> None
         | Some ds \<Rightarrow> Some (pre @ ds @ post, ds))
      else None)"

fun regExpExec :: "regExp \<Rightarrow> string \<Rightarrow> (string \<times> string \<times> string \<times> string) option" where
  \<comment> \<open>the leftmost match: the text before it, the matched text, the captured digits, the text after it\<close>
  "regExpExec re [] =
     (case matchHere re [] of None \<Rightarrow> None | Some (m, g) \<Rightarrow> Some ([], m, g, []))"
| "regExpExec re (c # cs) =
     (case matchHere re (c # cs) of
        Some (m, g) \<Rightarrow> Some ([], m, g, drop (length m) (c # cs))
      | None \<Rightarrow> map_option (\<lambda>(b, m, g, a). (c # b, m, g, a)) (regExpExec re cs))"

definition stringMatch :: "string \<Rightarrow> regExp \<Rightarrow> string option" where
  \<comment> \<open>\<^verbatim>\<open>s.match(re)\<close>: \<open>None\<close> is \<^verbatim>\<open>null\<close>, \<open>Some g\<close> a result whose element 1 is \<open>g\<close>\<close>
  "stringMatch s re = map_option (\<lambda>(b, m, g, a). g) (regExpExec re s)"

definition replaceRegExp :: "string \<Rightarrow> regExp \<Rightarrow> string \<Rightarrow> string" where
  \<comment> \<open>\<^verbatim>\<open>s.replace(re, template)\<close> for a pattern without the global flag\<close>
  "replaceRegExp s re template =
     (case regExpExec re s of
        None \<Rightarrow> s
      | Some (b, m, g, a) \<Rightarrow> b @ getSubstitution [g] m b a template @ a)"

section \<open>Events\<close>

record uiEvent =
  altKey :: bool
  ctrlKey :: bool
  shiftKey :: bool

record keyboardEvent = uiEvent +
  key :: string
  code :: string

record element =
  elementId :: nat
  nodeName :: string
  src :: "string option"
  filesource :: "string option"
  classList :: string

record wheelEvent = uiEvent +
  deltaY :: real
  target :: element

text \<open>
  An element is a node of the page (\<open>elementId\<close>), its tag, the two attributes the
  program reads (\<open>None\<close> when \<^verbatim>\<open>getNamedItem\<close> returns \<^verbatim>\<open>null\<close>) and \<^verbatim>\<open>classList.value\<close>.
\<close>

section \<open>The keyboard-step plugin\<close>

text \<open>
  \<^verbatim>\<open>resize(scale, activeLeaf)\<close> edits the line under the cursor of the active Markdown view.
  The editor is the list of its lines and the line of the cursor; the host keeps the
  cursor on a line of the document (\<open>editor_ok\<close>).
\<close>

record editor =
  doc :: "string list"
  cursorLine :: nat

definition editor_ok :: "editor \<Rightarrow> bool" where
  "editor_ok cm \<longleftrightarrow> cursorLine cm < length (doc cm)"

definition getLine :: "editor \<Rightarrow> nat \<Rightarrow> string" where
  "getLine cm n = (if n < length (doc cm) then doc cm ! n else [])"

definition setLine :: "editor \<Rightarrow> nat \<Rightarrow> string \<Rightarrow> editor" where
  "setLine cm n s = cm\<lparr>doc := (doc cm)[n := s]\<rparr>"

datatype view = MarkdownView editor | OtherView

record leaf =
  view :: "view option"

definition sizeRegex :: regExp where
  \<comment> \<open>\<^verbatim>\<open>/\|(\d+)\]/\<close>\<close>
  "sizeRegex = DigitsBetween ''|'' '']''"

definition resizeEditor :: "int \<Rightarrow> editor \<Rightarrow> editor" where
  \<comment> \<open>the body of \<^verbatim>\<open>resize\<close> once the active view is a Markdown view\<close>
  "resizeEditor scale cmEditor =
     (let cursor = cursorLine cmEditor;
          line = getLine cmEditor cursor
      in case stringMatch line sizeRegex of
           Some g \<Rightarrow>
             (let matchText = parseInt g;
                  newWidth = matchText + scale
              in if newWidth < 50 then cmEditor
                 else setLine cmEditor cursor
                        (replaceRegExp line sizeRegex (''|'' @ numberToString newWidth @ '']'')))
         | None \<Rightarrow>
             (let modifiedString = replaceString line '']'' ''|100]''
              in setLine cmEditor cursor modifiedString))"

fun resize :: "int \<Rightarrow> leaf option \<Rightarrow> leaf option" where
  "resize scale None = None"
| "resize scale (Some activeLeaf) =
     (case view activeLeaf of
        Some (MarkdownView cmEditor) \<Rightarrow>
          Some (activeLeaf\<lparr>view := Some (MarkdownView (resizeEditor scale cmEditor))\<rparr>)
      | _ \<Rightarrow> Some activeLeaf)"

definition toLowerCase :: "string \<Rightarrow> string" where
  \<comment> \<open>\<^verbatim>\<open>toLocaleLowerCase\<close> on the letters of ASCII\<close>
  "toLowerCase s =
     map (\<lambda>c. case map_of (zip ''ABCDEFGHIJKLMNOPQRSTUVWXYZ'' ''abcdefghijklmnopqrstuvwxyz'') c of
                Some l \<Rightarrow> l
              | None \<Rightarrow> c) s"

definition onResizeKeydown :: "keyboardEvent \<Rightarrow> leaf option \<Rightarrow> leaf option" where
  \<comment> \<open>the \<^verbatim>\<open>keydown\<close> handler: Ctrl+Shift+K grows, Ctrl+Shift+J shrinks\<close>
  "onResizeKeydown evt activeLeaf =
     (if ctrlKey evt \<and> shiftKey evt \<and> toLowerCase (key evt) = ''k'' then resize 100 activeLeaf
      else if ctrlKey evt \<and> shiftKey evt \<and> toLowerCase (key evt) = ''j'' then resize (- 100) activeLeaf
      else activeLeaf)"

section \<open>The wheel-zoom plugin\<close>

datatype modifierKey = ALT | CTRL | SHIFT

fun modifierKeyToString :: "modifierKey \<Rightarrow> string" where
  "modifierKeyToString ALT = ''AltLeft''"
| "modifierKeyToString CTRL = ''ControlLeft''"
| "modifierKeyToString SHIFT = ''ShiftLeft''"

record mouseWheelZoomSettings =
  initialSize :: int
  modifierKey :: modifierKey
  stepSize :: int

definition DEFAULT_SETTINGS :: mouseWheelZoomSettings where
  "DEFAULT_SETTINGS = \<lparr>initialSize = 500, modifierKey = ALT, stepSize = 25\<rparr>"

subsection \<open>The interface of \<^verbatim>\<open>Util\<close>\<close>

text \<open>
  Modelled from the spec: the module \<^verbatim>\<open>./src/util\<close> (\<^verbatim>\<open>Util\<close>, \<^verbatim>\<open>HandleZoomParams\<close>) is imported
  by \<^verbatim>\<open>main.ts\<close> and is not among the sources. Its types are taken from the data model of
  the specification and from the calls in \<^verbatim>\<open>handleZoom\<close>: a pattern that detects an existing
  size annotation and captures its number, and two pairs of replace rules, each a string to
  replace and a template to replace it with, both computed from a size. The pattern has
  the shape of \<open>DigitsBetween\<close>, literal text around the captured digits, as in the
  \<^verbatim>\<open>![[<escaped-name>|NNN]]\<close> of the specification. The three functions of \<^verbatim>\<open>Util\<close> that
  \<^verbatim>\<open>getZoomParams\<close> calls are a parameter of the model.
\<close>

record replaceTerm =
  getReplaceFromString :: "int \<Rightarrow> string"
  getReplaceWithString :: "int \<Rightarrow> string"

record handleZoomParams =
  sizeMatchRegExp :: regExp
  replaceSizeExist :: replaceTerm
  replaceSizeNotExist :: replaceTerm

record util =
  getRemoteImageZoomParams :: "string \<Rightarrow> string \<Rightarrow> handleZoomParams"
  getLocalImageNameFromUri :: "string \<Rightarrow> string"
  getLocalImageZoomParams :: "string \<Rightarrow> string \<Rightarrow> handleZoomParams"

definition localImageZoomParams :: "string \<Rightarrow> string \<Rightarrow> handleZoomParams" where
  \<comment> \<open>Modelled from the spec: \<^verbatim>\<open>Util.getLocalImageZoomParams\<close>, the local-attachment syntax
      \<^verbatim>\<open>![[name|SIZE]]\<close>, or \<^verbatim>\<open>![[name]]\<close> without a size. The name is escaped in the
      pattern and stands as it is in the strings.\<close>
  "localImageZoomParams imageName fileText =
     \<lparr>sizeMatchRegExp = DigitsBetween (''![['' @ imageName @ ''|'') '']]'',
      replaceSizeExist =
        \<lparr>getReplaceFromString = (\<lambda>oldSize. ''![['' @ imageName @ ''|'' @ numberToString oldSize @ '']]''),
         getReplaceWithString = (\<lambda>newSize. ''![['' @ imageName @ ''|'' @ numberToString newSize @ '']]'')\<rparr>,
      replaceSizeNotExist =
        \<lparr>getReplaceFromString = (\<lambda>oldSize. ''![['' @ imageName @ '']]''),
         getReplaceWithString = (\<lambda>newSize. ''![['' @ imageName @ ''|'' @ numberToString newSize @ '']]'')\<rparr>\<rparr>"

subsection \<open>The state of the plugin and of its host\<close>

text \<open>
  The plugin holds its settings and the key-held flag; \<open>scrollDisabled\<close> says whether the
  listener that \<^verbatim>\<open>disableScroll\<close> adds is registered. Of the host the model keeps the text
  of every file of the vault, and the calls of \<^verbatim>\<open>vault.read\<close> and \<^verbatim>\<open>vault.modify\<close> in the
  order the plugin makes them. The host that a handler only reads is \<open>host\<close>: the open
  leaves (the elements each contains, whether its view is a Markdown view, its file), the
  width that a fresh \<^verbatim>\<open>Image\<close> reports right after its \<^verbatim>\<open>src\<close> is set, and \<^verbatim>\<open>Util\<close>.
  \<^verbatim>\<open>handleZoom\<close> is asynchronous and is modelled as one step.
\<close>

type_synonym tfile = nat

datatype vaultOp = Read tfile | Modify tfile string

record plugin =
  settings :: mouseWheelZoomSettings
  isKeyHeldDown :: bool
  scrollDisabled :: bool
  vault :: "tfile \<Rightarrow> string"
  vaultLog :: "vaultOp list"

record workspaceLeaf =
  containerEl :: "nat list"
  isMarkdownView :: bool
  viewFile :: tfile

record host =
  leaves :: "workspaceLeaf list"
  naturalWidth :: "string \<Rightarrow> int"
  Util :: util

datatype error =
    TypeError
  | NoFileForImage
  | NotZoomable

text \<open>
  \<open>TypeError\<close> is the reading of \<^verbatim>\<open>textContent\<close> of an attribute that is not there,
  \<open>NoFileForImage\<close> is \<^verbatim>\<open>Error("No file belonging to the image found")\<close> and \<open>NotZoomable\<close> is
  \<^verbatim>\<open>Error("Image is not zoomable")\<close>.
\<close>

subsection \<open>The handlers\<close>

definition disableScroll :: "plugin \<Rightarrow> plugin" where
  "disableScroll p = p\<lparr>scrollDisabled := True\<rparr>"

definition enableScroll :: "plugin \<Rightarrow> plugin" where
  "enableScroll p = p\<lparr>scrollDisabled := False\<rparr>"

definition onConfigKeyUp :: "plugin \<Rightarrow> plugin" where
  "onConfigKeyUp p = enableScroll (p\<lparr>isKeyHeldDown := False\<rparr>)"

fun isConfiguredKeyDown :: "modifierKey \<Rightarrow> wheelEvent \<Rightarrow> bool" where
  "isConfiguredKeyDown ALT evt = altKey evt"
| "isConfiguredKeyDown CTRL evt = ctrlKey evt"
| "isConfiguredKeyDown SHIFT evt = shiftKey evt"

definition getActivePaneWithImage :: "host \<Rightarrow> element \<Rightarrow> error + tfile" where
  \<comment> \<open>the promise settles with the first leaf that resolves it, and is rejected when none does\<close>
  "getActivePaneWithImage h imageElement =
     (case List.find (\<lambda>l. elementId imageElement \<in> set (containerEl l) \<and> isMarkdownView l) (leaves h) of
        Some l \<Rightarrow> Inr (viewFile l)
      | None \<Rightarrow> Inl NoFileForImage)"

definition imageNameAfterSlash :: "string \<Rightarrow> string" where
  \<comment> \<open>the name of a drawing embed, from its \<^verbatim>\<open>filesource\<close> attribute\<close>
  "imageNameAfterSlash fs =
     (let imageName = substring fs 0 (int (length fs) - 3)
      in substringFrom imageName (lastIndexOf imageName CHR ''/'' + 1))"

definition getZoomParams :: "util \<Rightarrow> string \<Rightarrow> string \<Rightarrow> element \<Rightarrow> error + handleZoomParams" where
  \<comment> \<open>\<^verbatim>\<open>match("excalidraw-svg.*")\<close> is not anchored and \<^verbatim>\<open>.*\<close> matches the empty text, so it
      succeeds where the class text contains \<^verbatim>\<open>excalidraw-svg\<close>\<close>
  "getZoomParams u imageUri fileText tgt =
     (if contains imageUri ''http'' then Inr (getRemoteImageZoomParams u imageUri fileText)
      else if contains imageUri ''app://'' then
        (let imageName = getLocalImageNameFromUri u imageUri
         in Inr (getLocalImageZoomParams u imageName fileText))
      else if contains (classList tgt) ''excalidraw-svg'' then
        (case filesource tgt of
           None \<Rightarrow> Inl TypeError
         | Some fs \<Rightarrow> Inr (getLocalImageZoomParams u (imageNameAfterSlash fs) fileText))
      else Inl NotZoomable)"

definition zoomedSize :: "int \<Rightarrow> real \<Rightarrow> int \<Rightarrow> int" where
  \<comment> \<open>\<^verbatim>\<open>newSize\<close> from \<^verbatim>\<open>oldSize\<close>: the step is added or taken off by the sign of \<^verbatim>\<open>deltaY\<close>\<close>
  "zoomedSize step dy oldSize =
     (let newSize = oldSize
      in if dy < 0 then newSize + step
         else if dy > 0 \<and> newSize > step then newSize - step
         else newSize)"

definition zoomedFileText ::
  "mouseWheelZoomSettings \<Rightarrow> real \<Rightarrow> int \<Rightarrow> handleZoomParams \<Rightarrow> string \<Rightarrow> string" where
  \<comment> \<open>the text that \<^verbatim>\<open>handleZoom\<close> computes from the text it has read; \<open>width\<close> is the
      \<^verbatim>\<open>naturalWidth\<close> that the fresh image reports\<close>
  "zoomedFileText s dy width zoomParams fileText =
     (case stringMatch fileText (sizeMatchRegExp zoomParams) of
        Some g \<Rightarrow>
          (let oldSize = parseInt g;
               newSize = zoomedSize (stepSize s) dy oldSize
           in replaceString fileText
                (getReplaceFromString (replaceSizeExist zoomParams) oldSize)
                (getReplaceWithString (replaceSizeExist zoomParams) newSize))
      | None \<Rightarrow>
          (let minWidth = min width (initialSize s)
           in replaceString fileText
                (getReplaceFromString (replaceSizeNotExist zoomParams) 0)
                (getReplaceWithString (replaceSizeNotExist zoomParams) minWidth)))"

definition vaultRead :: "plugin \<Rightarrow> tfile \<Rightarrow> string \<times> plugin" where
  "vaultRead p f = (vault p f, p\<lparr>vaultLog := vaultLog p @ [Read f]\<rparr>)"

definition vaultModify :: "plugin \<Rightarrow> tfile \<Rightarrow> string \<Rightarrow> plugin" where
  "vaultModify p f t = p\<lparr>vault := (vault p)(f := t), vaultLog := vaultLog p @ [Modify f t]\<rparr>"

definition saveChangedSize :: "plugin \<Rightarrow> tfile \<Rightarrow> string \<Rightarrow> string \<Rightarrow> plugin" where
  \<comment> \<open>the last statement of \<^verbatim>\<open>handleZoom\<close>\<close>
  "saveChangedSize p activeFile originalFileText fileText =
     (if fileText \<noteq> originalFileText then vaultModify p activeFile fileText else p)"

definition handleZoom :: "host \<Rightarrow> plugin \<Rightarrow> wheelEvent \<Rightarrow> element \<Rightarrow> error option \<times> plugin" where
  \<comment> \<open>the error, if the call throws or its promise is rejected, and the state it leaves\<close>
  "handleZoom h p evt eventTarget =
     (case src eventTarget of
        None \<Rightarrow> (Some TypeError, p)
      | Some imageUri \<Rightarrow>
          (case getActivePaneWithImage h eventTarget of
             Inl e \<Rightarrow> (Some e, p)
           | Inr activeFile \<Rightarrow>
               (let (fileText, p1) = vaultRead p activeFile;
                    originalFileText = fileText
                in case getZoomParams (Util h) imageUri fileText eventTarget of
                     Inl e \<Rightarrow> (Some e, p1)
                   | Inr zoomParams \<Rightarrow>
                       (let fileText' = zoomedFileText (settings p) (deltaY evt)
                                          (naturalWidth h imageUri) zoomParams fileText
                        in (None, saveChangedSize p1 activeFile originalFileText fileText')))))"

definition onKeydown :: "plugin \<Rightarrow> keyboardEvent \<Rightarrow> plugin" where
  "onKeydown p evt =
     (if code evt = modifierKeyToString (modifierKey (settings p))
      then disableScroll (p\<lparr>isKeyHeldDown := True\<rparr>)
      else p)"

definition onKeyup :: "plugin \<Rightarrow> keyboardEvent \<Rightarrow> plugin" where
  "onKeyup p evt =
     (if code evt = modifierKeyToString (modifierKey (settings p)) then onConfigKeyUp p else p)"

definition onWheel :: "host \<Rightarrow> plugin \<Rightarrow> wheelEvent \<Rightarrow> plugin" where
  "onWheel h p evt =
     (if isKeyHeldDown p then
        (if \<not> isConfiguredKeyDown (modifierKey (settings p)) evt then onConfigKeyUp p
         else
           (let eventTarget = target evt
            in if nodeName eventTarget = ''IMG'' then snd (handleZoom h p evt eventTarget) else p))
      else p)"

section \<open>Notions used to state the properties\<close>

definition annotationAt :: "string \<Rightarrow> string \<Rightarrow> string \<Rightarrow> string \<Rightarrow> bool" where
  \<comment> \<open>the line is \<open>b\<close>, then \<^verbatim>\<open>|\<close>, the digits \<open>ds\<close> and \<^verbatim>\<open>]\<close>, then \<open>a\<close>\<close>
  "annotationAt line b ds a \<longleftrightarrow>
     line = b @ ''|'' @ ds @ '']'' @ a \<and> ds \<noteq> [] \<and> (\<forall>c \<in> set ds. isDigit c)"

definition withLine :: "leaf \<Rightarrow> editor \<Rightarrow> string \<Rightarrow> leaf" where
  \<comment> \<open>the leaf whose editor \<open>cm\<close> has the line under the cursor set to \<open>s\<close>\<close>
  "withLine lf cm s = lf\<lparr>view := Some (MarkdownView (cm\<lparr>doc := (doc cm)[cursorLine cm := s]\<rparr>))\<rparr>"

subsection \<open>Inputs for the examples\<close>

text \<open>
  The examples that run \<^verbatim>\<open>handleZoom\<close> zoom a drawing embed: its name comes from the
  \<^verbatim>\<open>filesource\<close> attribute, and of \<^verbatim>\<open>Util\<close> only \<^verbatim>\<open>getLocalImageZoomParams\<close> is called. The
  other two fields of \<open>exampleUtil\<close> only fill the record: no example looks into what they
  return. The host has one Markdown leaf, which shows file \<open>0\<close> and contains the image;
  every fresh image reports the width \<open>w\<close>.
\<close>

definition exampleUtil :: util where
  "exampleUtil =
     \<lparr>getRemoteImageZoomParams = localImageZoomParams,
      getLocalImageNameFromUri = (\<lambda>uri. uri),
      getLocalImageZoomParams = localImageZoomParams\<rparr>"

definition exampleHost :: "int \<Rightarrow> host" where
  "exampleHost w =
     \<lparr>leaves = [\<lparr>containerEl = [7], isMarkdownView = True, viewFile = 0\<rparr>],
      naturalWidth = (\<lambda>uri. w),
      Util = exampleUtil\<rparr>"

definition examplePlugin :: "string \<Rightarrow> plugin" where
  "examplePlugin text =
     \<lparr>settings = DEFAULT_SETTINGS, isKeyHeldDown = True, scrollDisabled = True,
      vault = (\<lambda>f. text), vaultLog = []\<rparr>"

definition drawingEmbed :: "string \<Rightarrow> element" where
  "drawingEmbed fs =
     \<lparr>elementId = 7, nodeName = ''IMG'', src = Some ''data:image/svg+xml;base64,PHN2Zz4='',
      filesource = Some fs, classList = ''excalidraw-svg''\<rparr>"

definition wheelOver :: "element \<Rightarrow> real \<Rightarrow> wheelEvent" where
  "wheelOver el dy = \<lparr>altKey = True, ctrlKey = False, shiftKey = False, deltaY = dy, target = el\<rparr>"

section \<open>Facts about strings and patterns\<close>

lemma startsWith_drop: "startsWith s p \<Longrightarrow> s = p @ drop (length p) s"
  unfolding startsWith_def by (metis append_take_drop_id)

lemma getSubstitution_plain:
  "CHR 0x24 \<notin> set t \<Longrightarrow> getSubstitution caps m b a t = t"
  by (induction caps m b a t rule: getSubstitution.induct) auto






lemma indexOfSplit_char:
  "c \<notin> set pre \<Longrightarrow> indexOfSplit (pre @ c # post) [c] = Some (pre, post)"
  by (induction pre) (auto simp: startsWith_def)

lemma indexOfSplit_absent: "c \<notin> set s \<Longrightarrow> indexOfSplit s [c] = None"
  by (induction s) (auto simp: startsWith_def)

lemma indexOfSplit_self: "indexOfSplit s s = Some ([], [])"
  by (cases s) (simp_all add: startsWith_def)

lemma replaceString_plain:
  "indexOfSplit s pat = Some (b, a) \<Longrightarrow> CHR 0x24 \<notin> set t \<Longrightarrow> replaceString s pat t = b @ t @ a"
  by (simp add: replaceString_def getSubstitution_plain)

lemma indexOfSplit_Some: "indexOfSplit s pat = Some (b, a) \<Longrightarrow> s = b @ pat @ a"
proof (induction s arbitrary: b)
  case Nil
  then show ?case by (simp split: if_splits)
next
  case (Cons c cs)
  show ?case
  proof (cases "startsWith (c # cs) pat")
    case True
    with Cons.prems have "b = []" "a = drop (length pat) (c # cs)" by simp_all
    with startsWith_drop [OF True] show ?thesis by simp
  next
    case False
    with Cons.prems obtain b' where "indexOfSplit cs pat = Some (b', a)" "b = c # b'"
      by auto
    with Cons.IH show ?thesis by simp
  qed
qed

lemma replaceString_same:
  assumes "CHR 0x24 \<notin> set t"
  shows "replaceString s t t = s"
proof (cases "indexOfSplit s t")
  case None
  then show ?thesis by (simp add: replaceString_def)
next
  case (Some ba)
  obtain b a where ba: "ba = (b, a)" by (cases ba)
  from Some ba indexOfSplit_Some have "s = b @ t @ a" by blast
  with Some ba assms show ?thesis by (simp add: replaceString_plain)
qed

subsection \<open>What the pattern matches\<close>

lemma digitsThen_Some:
  "digitsThen k r post = Some ds \<Longrightarrow>
     \<exists>j. 1 \<le> j \<and> j \<le> k \<and> ds = take j r \<and> startsWith (drop j r) post"
proof (induction k)
  case 0
  then show ?case by simp
next
  case (Suc k)
  show ?case
  proof (cases "startsWith (drop (Suc k) r) post")
    case True
    with Suc.prems have "ds = take (Suc k) r" by simp
    with True show ?thesis by (intro exI [of _ "Suc k"]) simp
  next
    case False
    with Suc.prems have "digitsThen k r post = Some ds" by simp
    from Suc.IH [OF this] show ?thesis by (auto intro: le_SucI)
  qed
qed

lemma take_within_takeWhile:
  assumes "j \<le> length (takeWhile P r)"
  shows "\<forall>c \<in> set (take j r). P c" and "length (take j r) = j"
proof -
  have tw: "takeWhile P r = take (length (takeWhile P r)) r"
    by (rule takeWhile_eq_take)
  have "take j r = take j (takeWhile P r)"
    using assms by (subst tw) (simp add: min_def)
  then have "set (take j r) \<subseteq> set (takeWhile P r)"
    by (metis set_take_subset)
  then show "\<forall>c \<in> set (take j r). P c"
    by (auto dest: set_takeWhileD)
  have "length (takeWhile P r) \<le> length r"
    by (rule length_takeWhile_le)
  with assms show "length (take j r) = j" by simp
qed

lemma matchHere_sound:
  assumes "matchHere (DigitsBetween pre post) s = Some (m, g)"
  shows "m = pre @ g @ post \<and> g \<noteq> [] \<and> (\<forall>c \<in> set g. isDigit c) \<and> s = m @ drop (length m) s"
proof -
  from assms have sw: "startsWith s pre"
    by (simp split: if_splits)
  define r where "r = drop (length pre) s"
  from sw have s: "s = pre @ r"
    unfolding r_def by (rule startsWith_drop)
  from assms sw have
    dt: "digitsThen (length (takeWhile isDigit r)) r post = Some g" and
    m: "m = pre @ g @ post"
    by (auto simp: r_def Let_def split: option.splits)
  from digitsThen_Some [OF dt] obtain j where
    j: "1 \<le> j" "j \<le> length (takeWhile isDigit r)" "g = take j r" "startsWith (drop j r) post"
    by blast
  from take_within_takeWhile [OF j(2)] j(3) have
    dig: "\<forall>c \<in> set g. isDigit c" and len: "length g = j" by simp_all
  from len j(1) have ne: "g \<noteq> []" by auto
  from j(4) have "drop j r = post @ drop (length post) (drop j r)"
    by (rule startsWith_drop)
  then have "r = g @ post @ drop (length post) (drop j r)"
    using j(3) by (metis append_take_drop_id)
  with s have "s = m @ drop (length post) (drop j r)"
    by (simp add: m)
  then have "s = m @ drop (length m) s"
    by (metis append_eq_conv_conj)
  with m ne dig show ?thesis by blast
qed

lemma matchHere_prefix:
  assumes "matchHere re s = Some (m, g)"
  shows "s = m @ drop (length m) s"
proof (cases re)
  case (DigitsBetween pre post)
  with assms show ?thesis using matchHere_sound by blast
qed

lemma regExpExec_decompose:
  "regExpExec re s = Some (b, m, g, a) \<Longrightarrow>
     s = b @ m @ a \<and> matchHere re (m @ a) = Some (m, g)"
proof (induction s arbitrary: b)
  case Nil
  then obtain m' g' where mh: "matchHere re [] = Some (m', g')"
    by (auto split: option.splits)
  with Nil have eq: "b = []" "m = m'" "g = g'" "a = []" by simp_all
  have "[] = m' @ drop (length m') []"
    using mh by (rule matchHere_prefix)
  then have "m' = []" by simp
  with eq mh show ?case by simp
next
  case (Cons c cs)
  show ?case
  proof (cases "matchHere re (c # cs)")
    case (Some mc)
    obtain m' g' where mc: "mc = (m', g')" by (cases mc)
    with Some Cons.prems have eq: "b = []" "m = m'" "g = g'" "a = drop (length m') (c # cs)"
      by auto
    have "c # cs = m' @ drop (length m') (c # cs)"
      using Some mc matchHere_prefix by blast
    with eq Some mc show ?thesis by simp
  next
    case None
    with Cons.prems obtain b' where
      r: "regExpExec re cs = Some (b', m, g, a)" and b: "b = c # b'"
      by auto
    from Cons.IH [OF r] b show ?thesis by simp
  qed
qed

lemma regExpExec_leftmost:
  "regExpExec re s = Some (b, m, g, a) \<Longrightarrow> i < length b \<Longrightarrow> matchHere re (drop i s) = None"
proof (induction s arbitrary: b i)
  case Nil
  then show ?case by (auto split: option.splits)
next
  case (Cons c cs)
  show ?case
  proof (cases "matchHere re (c # cs)")
    case (Some mc)
    with Cons.prems show ?thesis by (auto split: prod.splits)
  next
    case None
    with Cons.prems(1) obtain b' where
      r: "regExpExec re cs = Some (b', m, g, a)" and b: "b = c # b'"
      by auto
    show ?thesis
    proof (cases i)
      case 0
      with None show ?thesis by simp
    next
      case (Suc k)
      with Cons.prems(2) b have "k < length b'" by simp
      from Cons.IH [OF r this] Suc show ?thesis by simp
    qed
  qed
qed

lemma regExpExec_None:
  "regExpExec re s = None \<Longrightarrow> i \<le> length s \<Longrightarrow> matchHere re (drop i s) = None"
proof (induction s arbitrary: i)
  case Nil
  then show ?case by (auto split: option.splits)
next
  case (Cons c cs)
  from Cons.prems(1) have here: "matchHere re (c # cs) = None" and
    rest: "regExpExec re cs = None"
    by (auto split: option.splits)
  show ?case
  proof (cases i)
    case 0
    with here show ?thesis by simp
  next
    case (Suc k)
    with Cons.prems(2) have "k \<le> length cs" by simp
    from Cons.IH [OF rest this] Suc show ?thesis by simp
  qed
qed


lemma matchHere_sizeRegex_complete:
  assumes "ds \<noteq> []" and "\<forall>c \<in> set ds. isDigit c"
  shows "matchHere sizeRegex (''|'' @ ds @ '']'' @ a) = Some (''|'' @ ds @ '']'', ds)"
proof -
  define r where "r = ds @ '']'' @ a"
  have nd: "\<not> isDigit CHR '']''" by (simp add: isDigit_def)
  have tw: "takeWhile isDigit r = ds"
    unfolding r_def using assms(2) nd by (simp add: takeWhile_append2)
  from assms(1) obtain k where k: "length ds = Suc k" by (cases ds) auto
  have "digitsThen (Suc k) r '']'' = Some ds"
    using k by (simp add: r_def startsWith_def)
  with tw k have "digitsThen (length (takeWhile isDigit r)) r '']'' = Some ds" by simp
  then show ?thesis
    by (simp add: sizeRegex_def startsWith_def r_def)
qed


lemma regExpExec_sizeRegex_Some:
  assumes "regExpExec sizeRegex line = Some (b, m, g, a)"
  shows "m = ''|'' @ g @ '']'' \<and> annotationAt line b g a
            \<and> (\<forall>b' ds' a'. annotationAt line b' ds' a' \<longrightarrow> length b \<le> length b')"
proof -
  from regExpExec_decompose [OF assms] have
    l: "line = b @ m @ a" and mh: "matchHere sizeRegex (m @ a) = Some (m, g)" by simp_all
  from matchHere_sound [OF mh [unfolded sizeRegex_def]] l have
    ds: "m = ''|'' @ g @ '']''" "annotationAt line b g a"
    unfolding annotationAt_def by auto
  have "length b \<le> length b'" if "annotationAt line b' ds' a'" for b' ds' a'
  proof (rule ccontr)
    assume "\<not> length b \<le> length b'"
    then have "length b' < length b" by simp
    from regExpExec_leftmost [OF assms this]
    have "matchHere sizeRegex (drop (length b') line) = None" .
    moreover from that have "drop (length b') line = ''|'' @ ds' @ '']'' @ a'"
      unfolding annotationAt_def by simp
    moreover from that have "matchHere sizeRegex (''|'' @ ds' @ '']'' @ a') = Some (''|'' @ ds' @ '']'', ds')"
      unfolding annotationAt_def by (intro matchHere_sizeRegex_complete) blast+
    ultimately show False by simp
  qed
  with ds show ?thesis by blast
qed


lemma regExpExec_sizeRegex_None:
  "regExpExec sizeRegex line = None \<longleftrightarrow> \<not> (\<exists>b ds a. annotationAt line b ds a)"
proof
  assume n: "regExpExec sizeRegex line = None"
  show "\<not> (\<exists>b ds a. annotationAt line b ds a)"
  proof
    assume "\<exists>b ds a. annotationAt line b ds a"
    then obtain b ds a where an: "annotationAt line b ds a" by blast
    then have "length b \<le> length line" unfolding annotationAt_def by simp
    from regExpExec_None [OF n this] have "matchHere sizeRegex (drop (length b) line) = None" .
    moreover from an have "drop (length b) line = ''|'' @ ds @ '']'' @ a"
      unfolding annotationAt_def by simp
    moreover from an have "matchHere sizeRegex (''|'' @ ds @ '']'' @ a) = Some (''|'' @ ds @ '']'', ds)"
      unfolding annotationAt_def by (intro matchHere_sizeRegex_complete) blast+
    ultimately show False by simp
  qed
next
  assume no: "\<not> (\<exists>b ds a. annotationAt line b ds a)"
  show "regExpExec sizeRegex line = None"
  proof (rule ccontr)
    assume "regExpExec sizeRegex line \<noteq> None"
    then obtain b m g a where "regExpExec sizeRegex line = Some (b, m, g, a)" by auto
    from regExpExec_sizeRegex_Some [OF this] no show False by blast
  qed
qed


lemma resizeEditor_unmatched:
  assumes ok: "editor_ok cm"
    and line: "doc cm ! cursorLine cm = line"
    and none: "\<not> (\<exists>b ds a. annotationAt line b ds a)"
    and br: "line = pre @ '']'' @ post" "CHR '']'' \<notin> set pre"
  shows "resizeEditor scale cm = cm\<lparr>doc := (doc cm)[cursorLine cm := pre @ ''|100]'' @ post]\<rparr>"
proof -
  have gl: "getLine cm (cursorLine cm) = line"
    using ok line by (simp add: getLine_def editor_ok_def)
  have "regExpExec sizeRegex line = None"
    using none by (simp add: regExpExec_sizeRegex_None)
  then have mg: "stringMatch line sizeRegex = None"
    by (simp add: stringMatch_def)
  have ex: "indexOfSplit line '']'' = Some (pre, post)"
    unfolding br(1) using indexOfSplit_char [OF br(2)] by simp
  have rp: "replaceString line '']'' ''|100]'' = pre @ ''|100]'' @ post"
    by (rule replaceString_plain [OF ex]) simp
  show ?thesis
    by (simp add: resizeEditor_def Let_def gl mg rp setLine_def)
qed

lemma foldl_digits_snoc:
  "foldl (\<lambda>acc c. 10 * acc + digitValue c) 0 (xs @ [c]) =
     10 * foldl (\<lambda>acc c. 10 * acc + digitValue c) 0 xs + digitValue c"
  by simp



lemma onResizeKeydown_grow:
  "ctrlKey evt \<Longrightarrow> shiftKey evt \<Longrightarrow> key evt = ''k'' \<or> key evt = ''K'' \<Longrightarrow>
     onResizeKeydown evt activeLeaf = resize 100 activeLeaf"
  by (auto simp: onResizeKeydown_def toLowerCase_def)

lemma onResizeKeydown_shrink:
  "ctrlKey evt \<Longrightarrow> shiftKey evt \<Longrightarrow> key evt = ''j'' \<or> key evt = ''J'' \<Longrightarrow>
     onResizeKeydown evt activeLeaf = resize (- 100) activeLeaf"
  by (auto simp: onResizeKeydown_def toLowerCase_def)



lemma sizeRegex_pic_none: "regExpExec sizeRegex ''![[pic.png]]'' = None"
  by code_simp




text \<open>
  C5. On a line without an annotation \<^verbatim>\<open>|N]\<close>, the grow and the shrink shortcut both put
  the default annotation \<^verbatim>\<open>|100]\<close> in the place of the first closing bracket of the line:
  \<^verbatim>\<open>|100\<close> goes in before that bracket, and the text before and after it stays.
\<close>

theorem resize_unmatched:
  assumes "view lf = Some (MarkdownView cm)"
    and "editor_ok cm"
    and "doc cm ! cursorLine cm = line"
    and "\<not> (\<exists>b ds a. annotationAt line b ds a)"
    and "line = pre @ '']'' @ post"
    and "CHR '']'' \<notin> set pre"
  shows "resize 100 (Some lf) = Some (withLine lf cm (pre @ ''|100]'' @ post))
       \<and> resize (- 100) (Some lf) = Some (withLine lf cm (pre @ ''|100]'' @ post))"
  using assms(1) resizeEditor_unmatched [OF assms(2-6)]
  by (simp add: withLine_def)

theorem resize_unmatched_witness:
  "resize 100 (Some \<lparr>view = Some (MarkdownView \<lparr>doc = [''![[pic.png]]''], cursorLine = 0\<rparr>)\<rparr>)
     = Some \<lparr>view = Some (MarkdownView \<lparr>doc = [''![[pic.png|100]]''], cursorLine = 0\<rparr>)\<rparr>
   \<and> resize (- 100) (Some \<lparr>view = Some (MarkdownView \<lparr>doc = [''![[pic.png]]''], cursorLine = 0\<rparr>)\<rparr>)
     = Some \<lparr>view = Some (MarkdownView \<lparr>doc = [''![[pic.png|100]]''], cursorLine = 0\<rparr>)\<rparr>"
proof -
  define cm where "cm = \<lparr>doc = [''![[pic.png]]''], cursorLine = 0\<rparr>"
  define lf where "lf = \<lparr>view = Some (MarkdownView cm)\<rparr>"
  have 1: "view lf = Some (MarkdownView cm)" by (simp add: lf_def)
  have 2: "editor_ok cm" by (simp add: cm_def editor_ok_def)
  have 3: "doc cm ! cursorLine cm = ''![[pic.png]]''" by (simp add: cm_def)
  have 4: "\<not> (\<exists>b ds a. annotationAt ''![[pic.png]]'' b ds a)"
    using sizeRegex_pic_none regExpExec_sizeRegex_None by blast
  have 5: "''![[pic.png]]'' = ''![[pic.png'' @ '']'' @ '']''" by simp
  have 6: "CHR '']'' \<notin> set ''![[pic.png''" by simp
  from resize_unmatched [OF 1 2 3 4 5 6] show ?thesis
    by (simp add: withLine_def lf_def cm_def)
qed

text \<open>A line without a closing bracket has no annotation either, and stays as it is.\<close>

lemma resizeEditor_no_bracket:
  assumes "editor_ok cm" and "CHR '']'' \<notin> set (doc cm ! cursorLine cm)"
  shows "resizeEditor scale cm = cm"
proof -
  let ?line = "doc cm ! cursorLine cm"
  have gl: "getLine cm (cursorLine cm) = ?line"
    using assms(1) by (simp add: getLine_def editor_ok_def)
  have "\<not> (\<exists>b ds a. annotationAt ?line b ds a)"
    using assms(2) by (auto simp: annotationAt_def)
  then have "regExpExec sizeRegex ?line = None"
    by (simp add: regExpExec_sizeRegex_None)
  then have mg: "stringMatch ?line sizeRegex = None"
    by (simp add: stringMatch_def)
  have rp: "replaceString ?line '']'' ''|100]'' = ?line"
    using indexOfSplit_absent [OF assms(2)] by (simp add: replaceString_def)
  show ?thesis
    by (simp add: resizeEditor_def Let_def gl mg rp setLine_def)
qed

section \<open>The wheel-zoom plugin: resolving the syntax\<close>

lemma lastIndexOf_absent: "c \<notin> set s \<Longrightarrow> lastIndexOf s c = - 1"
  by (induction s) (auto simp: Let_def)

lemma lastIndexOf_last: "c \<notin> set name \<Longrightarrow> lastIndexOf (dir @ c # name) c = int (length dir)"
  by (induction dir) (auto simp: Let_def lastIndexOf_absent)

lemma substring_prefix: "0 \<le> k \<Longrightarrow> k \<le> int (length s) \<Longrightarrow> substring s 0 k = take (nat k) s"
  by (simp add: substring_def Let_def min_def max_def)

lemma substringFrom_drop:
  "0 \<le> k \<Longrightarrow> k \<le> int (length s) \<Longrightarrow> substringFrom s k = drop (nat k) s"
  by (simp add: substringFrom_def substring_def Let_def min_def max_def)

lemma imageNameAfterSlash_path:
  assumes "length ext = 3" and "CHR ''/'' \<notin> set name"
  shows "imageNameAfterSlash (dir @ ''/'' @ name @ ext) = name"
proof -
  let ?fs = "dir @ ''/'' @ name @ ext"
  have "substring ?fs 0 (int (length ?fs) - 3) = take (nat (int (length ?fs) - 3)) ?fs"
    using assms(1) by (intro substring_prefix) simp_all
  also have "\<dots> = dir @ ''/'' @ name"
  proof -
    have "nat (int (length ?fs) - 3) = length (dir @ ''/'' @ name)"
      using assms(1) by simp
    then show ?thesis
      by (metis append_assoc append_eq_conv_conj)
  qed
  finally have strip: "substring ?fs 0 (int (length ?fs) - 3) = dir @ ''/'' @ name" .
  have idx: "lastIndexOf (dir @ ''/'' @ name) CHR ''/'' = int (length dir)"
    using lastIndexOf_last [OF assms(2)] by simp
  have "substringFrom (dir @ ''/'' @ name) (int (length dir) + 1) = drop (nat (int (length dir) + 1)) (dir @ ''/'' @ name)"
    by (intro substringFrom_drop) simp_all
  also have "\<dots> = name" by (simp add: nat_add_distrib)
  finally show ?thesis
    unfolding imageNameAfterSlash_def strip Let_def idx .
qed

lemma imageNameAfterSlash_bare:
  assumes "length ext = 3" and "CHR ''/'' \<notin> set name"
  shows "imageNameAfterSlash (name @ ext) = name"
proof -
  let ?fs = "name @ ext"
  have "substring ?fs 0 (int (length ?fs) - 3) = take (nat (int (length ?fs) - 3)) ?fs"
    using assms(1) by (intro substring_prefix) simp_all
  also have "\<dots> = name"
    using assms(1) by simp
  finally have strip: "substring ?fs 0 (int (length ?fs) - 3) = name" .
  have idx: "lastIndexOf name CHR ''/'' = - 1"
    using assms(2) by (rule lastIndexOf_absent)
  have "substringFrom name 0 = drop (nat 0) name"
    by (intro substringFrom_drop) simp_all
  then have "substringFrom name (- 1 + 1) = name" by simp
  then show ?thesis
    unfolding imageNameAfterSlash_def strip Let_def idx .
qed

lemma imageNameAfterSlash_short: "length fs \<le> 3 \<Longrightarrow> imageNameAfterSlash fs = []"
  by (simp add: imageNameAfterSlash_def substring_def substringFrom_def Let_def min_def max_def)

lemma handleZoom_resolved:
  assumes "src tgt = Some uri"
    and "getActivePaneWithImage h tgt = Inr f"
    and "getZoomParams (Util h) uri (vault p f) tgt = Inr zp"
  shows "handleZoom h p evt tgt =
           (None, saveChangedSize (p\<lparr>vaultLog := vaultLog p @ [Read f]\<rparr>) f (vault p f)
                    (zoomedFileText (settings p) (deltaY evt) (naturalWidth h uri) zp (vault p f)))"
  using assms by (simp add: handleZoom_def vaultRead_def)

lemma handleZoom_unresolved:
  assumes "src tgt = Some uri"
    and "getActivePaneWithImage h tgt = Inr f"
    and "getZoomParams (Util h) uri (vault p f) tgt = Inl e"
  shows "handleZoom h p evt tgt = (Some e, p\<lparr>vaultLog := vaultLog p @ [Read f]\<rparr>)"
  using assms by (simp add: handleZoom_def vaultRead_def)

lemma handleZoom_no_pane:
  assumes "src tgt = Some uri" and "getActivePaneWithImage h tgt = Inl e"
  shows "handleZoom h p evt tgt = (Some e, p)"
  using assms by (simp add: handleZoom_def)

lemma handleZoom_no_src: "src tgt = None \<Longrightarrow> handleZoom h p evt tgt = (Some TypeError, p)"
  by (simp add: handleZoom_def)

text \<open>
  C4. The resolver decides in a fixed order. An identifier that contains \<^verbatim>\<open>http\<close> gets the
  remote-image syntax; otherwise one that contains \<^verbatim>\<open>app://\<close> gets the local-attachment
  syntax for the name taken from the identifier; otherwise an element whose class text
  matches the drawing-embed marker gets the local-attachment syntax for the name taken
  from its \<^verbatim>\<open>filesource\<close> attribute; otherwise the resolver throws. When it throws,
  \<^verbatim>\<open>handleZoom\<close> ends with that error and the text of every file is what it was.
\<close>

theorem getZoomParams_dispatch:
  "(contains uri ''http'' \<longrightarrow>
      getZoomParams u uri text tgt = Inr (getRemoteImageZoomParams u uri text))
   \<and> (\<not> contains uri ''http'' \<and> contains uri ''app://'' \<longrightarrow>
      getZoomParams u uri text tgt =
        Inr (getLocalImageZoomParams u (getLocalImageNameFromUri u uri) text))
   \<and> (\<not> contains uri ''http'' \<and> \<not> contains uri ''app://''
        \<and> contains (classList tgt) ''excalidraw-svg'' \<and> filesource tgt = Some fs \<longrightarrow>
      getZoomParams u uri text tgt =
        Inr (getLocalImageZoomParams u (imageNameAfterSlash fs) text))
   \<and> (\<not> contains uri ''http'' \<and> \<not> contains uri ''app://''
        \<and> \<not> contains (classList tgt) ''excalidraw-svg'' \<longrightarrow>
      getZoomParams u uri text tgt = Inl NotZoomable
      \<and> (src tgt = Some uri \<longrightarrow>
           fst (handleZoom h p evt tgt) \<noteq> None
           \<and> vault (snd (handleZoom h p evt tgt)) = vault p
           \<and> (\<forall>f. getActivePaneWithImage h tgt = Inr f \<longrightarrow>
                 handleZoom h p evt tgt = (Some NotZoomable, p\<lparr>vaultLog := vaultLog p @ [Read f]\<rparr>))))"
proof (intro conjI impI allI)
  assume a: "\<not> contains uri ''http'' \<and> \<not> contains uri ''app://''
        \<and> \<not> contains (classList tgt) ''excalidraw-svg''"
  then have nz: "getZoomParams u' uri text' tgt = Inl NotZoomable" for u' text'
    by (simp add: getZoomParams_def)
  assume s: "src tgt = Some uri"
  show "fst (handleZoom h p evt tgt) \<noteq> None"
  proof (cases "getActivePaneWithImage h tgt")
    case (Inl e)
    from handleZoom_no_pane [OF s Inl] show ?thesis by simp
  next
    case (Inr f)
    from handleZoom_unresolved [OF s Inr nz] show ?thesis by simp
  qed
  show "vault (snd (handleZoom h p evt tgt)) = vault p"
  proof (cases "getActivePaneWithImage h tgt")
    case (Inl e)
    from handleZoom_no_pane [OF s Inl] show ?thesis by simp
  next
    case (Inr f)
    from handleZoom_unresolved [OF s Inr nz] show ?thesis by simp
  qed
  fix f assume "getActivePaneWithImage h tgt = Inr f"
  from handleZoom_unresolved [OF s this nz]
  show "handleZoom h p evt tgt = (Some NotZoomable, p\<lparr>vaultLog := vaultLog p @ [Read f]\<rparr>)" .
qed (simp_all add: getZoomParams_def)

subsection \<open>The example inputs\<close>

lemma example_src: "src (drawingEmbed fs) = Some ''data:image/svg+xml;base64,PHN2Zz4=''"
  by (simp add: drawingEmbed_def)

lemma example_pane: "getActivePaneWithImage (exampleHost w) (drawingEmbed fs) = Inr 0"
  by (simp add: getActivePaneWithImage_def exampleHost_def drawingEmbed_def)

lemma example_not_remote: "\<not> contains ''data:image/svg+xml;base64,PHN2Zz4='' ''http''"
  by code_simp

lemma example_not_local: "\<not> contains ''data:image/svg+xml;base64,PHN2Zz4='' ''app://''"
  by code_simp

lemma example_class: "contains (classList (drawingEmbed fs)) ''excalidraw-svg''"
  by (simp add: drawingEmbed_def startsWith_def)

lemma example_params:
  "getZoomParams (Util (exampleHost w)) ''data:image/svg+xml;base64,PHN2Zz4='' text (drawingEmbed fs)
     = Inr (localImageZoomParams (imageNameAfterSlash fs) text)"
  using example_not_remote example_not_local example_class [of fs]
  by (simp add: getZoomParams_def exampleHost_def exampleUtil_def drawingEmbed_def)

lemma example_name: "imageNameAfterSlash ''Drawings/Drawing.excalidraw.md'' = ''Drawing.excalidraw''"
  using imageNameAfterSlash_path [of "''.md''" "''Drawing.excalidraw''" "''Drawings''"] by simp

lemma example_vault: "vault (examplePlugin text) f = text"
  by (simp add: examplePlugin_def)

theorem getZoomParams_dispatch_witness:
  "getZoomParams exampleUtil ''https://example.com/cat.png'' ''![cat](https://example.com/cat.png)'' (drawingEmbed ''a.md'')
     = Inr (getRemoteImageZoomParams exampleUtil ''https://example.com/cat.png'' ''![cat](https://example.com/cat.png)'')
   \<and> getZoomParams exampleUtil ''app://local/vault/pic.png?1650'' ''![[pic.png]]'' (drawingEmbed ''a.md'')
     = Inr (getLocalImageZoomParams exampleUtil
              (getLocalImageNameFromUri exampleUtil ''app://local/vault/pic.png?1650'') ''![[pic.png]]'')
   \<and> getZoomParams exampleUtil ''data:image/svg+xml;base64,PHN2Zz4='' ''![[Drawing.excalidraw]]''
        (drawingEmbed ''Drawings/Drawing.excalidraw.md'')
     = Inr (getLocalImageZoomParams exampleUtil ''Drawing.excalidraw'' ''![[Drawing.excalidraw]]'')
   \<and> handleZoom (exampleHost 300) (examplePlugin ''![[Drawing.excalidraw|100]]'')
        (wheelOver ((drawingEmbed ''a.md'')\<lparr>classList := ''internal-embed''\<rparr>) (- 100))
        ((drawingEmbed ''a.md'')\<lparr>classList := ''internal-embed''\<rparr>)
     = (Some NotZoomable, (examplePlugin ''![[Drawing.excalidraw|100]]'')\<lparr>vaultLog := [Read 0]\<rparr>)"
proof (intro conjI)
  have "contains ''https://example.com/cat.png'' ''http''" by code_simp
  with getZoomParams_dispatch
  show "getZoomParams exampleUtil ''https://example.com/cat.png'' ''![cat](https://example.com/cat.png)'' (drawingEmbed ''a.md'')
     = Inr (getRemoteImageZoomParams exampleUtil ''https://example.com/cat.png'' ''![cat](https://example.com/cat.png)'')"
    by blast
  have "\<not> contains ''app://local/vault/pic.png?1650'' ''http''"
    "contains ''app://local/vault/pic.png?1650'' ''app://''" by code_simp+
  with getZoomParams_dispatch
  show "getZoomParams exampleUtil ''app://local/vault/pic.png?1650'' ''![[pic.png]]'' (drawingEmbed ''a.md'')
     = Inr (getLocalImageZoomParams exampleUtil
              (getLocalImageNameFromUri exampleUtil ''app://local/vault/pic.png?1650'') ''![[pic.png]]'')"
    by blast
  have "filesource (drawingEmbed ''Drawings/Drawing.excalidraw.md'') = Some ''Drawings/Drawing.excalidraw.md''"
    by (simp add: drawingEmbed_def)
  with getZoomParams_dispatch [of "''data:image/svg+xml;base64,PHN2Zz4=''" exampleUtil
      "''![[Drawing.excalidraw]]''" "drawingEmbed ''Drawings/Drawing.excalidraw.md''"
      "''Drawings/Drawing.excalidraw.md''"]
    example_not_remote example_not_local example_class
  show "getZoomParams exampleUtil ''data:image/svg+xml;base64,PHN2Zz4='' ''![[Drawing.excalidraw]]''
        (drawingEmbed ''Drawings/Drawing.excalidraw.md'')
     = Inr (getLocalImageZoomParams exampleUtil ''Drawing.excalidraw'' ''![[Drawing.excalidraw]]'')"
    by (simp add: example_name)
  let ?el = "(drawingEmbed ''a.md'')\<lparr>classList := ''internal-embed''\<rparr>"
  have 1: "\<not> contains (classList ?el) ''excalidraw-svg''" by (simp add: startsWith_def)
  have 2: "src ?el = Some ''data:image/svg+xml;base64,PHN2Zz4=''" by (simp add: drawingEmbed_def)
  have 3: "getActivePaneWithImage (exampleHost 300) ?el = Inr 0"
    by (simp add: getActivePaneWithImage_def exampleHost_def drawingEmbed_def)
  from getZoomParams_dispatch [of "''data:image/svg+xml;base64,PHN2Zz4=''" _ _ ?el _
      "exampleHost 300" "examplePlugin ''![[Drawing.excalidraw|100]]''" "wheelOver ?el (- 100)"]
    example_not_remote example_not_local 1 2 3
  show "handleZoom (exampleHost 300) (examplePlugin ''![[Drawing.excalidraw|100]]'')
        (wheelOver ?el (- 100)) ?el
     = (Some NotZoomable, (examplePlugin ''![[Drawing.excalidraw|100]]'')\<lparr>vaultLog := [Read 0]\<rparr>)"
    by (simp add: examplePlugin_def)
qed

text \<open>
  C6. For a drawing embed, the name given to the local-attachment syntax is the
  \<^verbatim>\<open>filesource\<close> attribute without its last three characters (the extension), and of that
  the text after the last \<^verbatim>\<open>/\<close>.
\<close>

theorem drawing_embed_name:
  assumes "\<not> contains uri ''http''" and "\<not> contains uri ''app://''"
    and "contains (classList tgt) ''excalidraw-svg''"
    and "filesource tgt = Some fs"
    and "fs = dir @ ''/'' @ name @ ext \<or> fs = name @ ext"
    and "length ext = 3"
    and "CHR ''/'' \<notin> set name"
  shows "getZoomParams u uri text tgt = Inr (getLocalImageZoomParams u name text)"
proof -
  from assms(5-7) have "imageNameAfterSlash fs = name"
    using imageNameAfterSlash_path imageNameAfterSlash_bare by blast
  with assms(1-4) show ?thesis by (simp add: getZoomParams_def)
qed

theorem drawing_embed_name_witness:
  "getZoomParams exampleUtil ''data:image/svg+xml;base64,PHN2Zz4='' ''![[Drawing.excalidraw|100]]''
        (drawingEmbed ''Drawings/2024/Drawing.excalidraw.md'')
     = Inr (localImageZoomParams ''Drawing.excalidraw'' ''![[Drawing.excalidraw|100]]'')"
proof -
  have 4: "filesource (drawingEmbed ''Drawings/2024/Drawing.excalidraw.md'') = Some ''Drawings/2024/Drawing.excalidraw.md''"
    by (simp add: drawingEmbed_def)
  have 5: "''Drawings/2024/Drawing.excalidraw.md'' = ''Drawings/2024'' @ ''/'' @ ''Drawing.excalidraw'' @ ''.md''
           \<or> ''Drawings/2024/Drawing.excalidraw.md'' = ''Drawing.excalidraw'' @ ''.md''" by simp
  have 6: "length ''.md'' = 3" by simp
  have 7: "CHR ''/'' \<notin> set ''Drawing.excalidraw''" by simp
  from drawing_embed_name [OF example_not_remote example_not_local example_class 4 5 6 7, of exampleUtil]
  show ?thesis by (simp add: exampleUtil_def)
qed

text \<open>
  C7. A wheel event that arrives while the key-held flag is set, and whose payload says
  that the configured modifier is not pressed, clears the flag (and lets the page scroll
  again) and does nothing else: no file is read or written.
\<close>

theorem stuck_modifier_cleared:
  assumes "isKeyHeldDown p"
    and "\<not> isConfiguredKeyDown (modifierKey (settings p)) evt"
  shows "onWheel h p evt = p\<lparr>isKeyHeldDown := False, scrollDisabled := False\<rparr>
       \<and> \<not> isKeyHeldDown (onWheel h p evt)
       \<and> vault (onWheel h p evt) = vault p
       \<and> vaultLog (onWheel h p evt) = vaultLog p"
  using assms by (simp add: onWheel_def onConfigKeyUp_def enableScroll_def)

theorem stuck_modifier_cleared_witness:
  "onWheel (exampleHost 300)
      (onKeydown ((examplePlugin ''![[Drawing.excalidraw|100]]'')\<lparr>isKeyHeldDown := False, scrollDisabled := False\<rparr>)
         \<lparr>altKey = True, ctrlKey = False, shiftKey = False, key = ''Alt'', code = ''AltLeft''\<rparr>)
      ((wheelOver (drawingEmbed ''Drawing.excalidraw.md'') (- 100))\<lparr>altKey := False\<rparr>)
   = (examplePlugin ''![[Drawing.excalidraw|100]]'')\<lparr>isKeyHeldDown := False, scrollDisabled := False\<rparr>"
proof -
  let ?p0 = "(examplePlugin ''![[Drawing.excalidraw|100]]'')\<lparr>isKeyHeldDown := False, scrollDisabled := False\<rparr>"
  let ?down = "\<lparr>altKey = True, ctrlKey = False, shiftKey = False, key = ''Alt'', code = ''AltLeft''\<rparr>"
  let ?evt = "(wheelOver (drawingEmbed ''Drawing.excalidraw.md'') (- 100))\<lparr>altKey := False\<rparr>"
  have p: "onKeydown ?p0 ?down = examplePlugin ''![[Drawing.excalidraw|100]]''"
    by (simp add: onKeydown_def examplePlugin_def DEFAULT_SETTINGS_def disableScroll_def)
  have 1: "isKeyHeldDown (onKeydown ?p0 ?down)"
    unfolding p by (simp add: examplePlugin_def)
  have 2: "\<not> isConfiguredKeyDown (modifierKey (settings (onKeydown ?p0 ?down))) ?evt"
    unfolding p by (simp add: examplePlugin_def DEFAULT_SETTINGS_def wheelOver_def)
  from stuck_modifier_cleared [OF 1 2, of "exampleHost 300"] show ?thesis
    unfolding p by (simp add: examplePlugin_def)
qed

section \<open>The wheel-zoom plugin: the new size and the write-back\<close>

lemma zoomedFileText_exist:
  "stringMatch fileText (sizeMatchRegExp zp) = Some g \<Longrightarrow>
     zoomedFileText s dy w zp fileText =
       replaceString fileText
         (getReplaceFromString (replaceSizeExist zp) (parseInt g))
         (getReplaceWithString (replaceSizeExist zp) (zoomedSize (stepSize s) dy (parseInt g)))"
  by (simp add: zoomedFileText_def Let_def)

lemma zoomedFileText_not_exist:
  "stringMatch fileText (sizeMatchRegExp zp) = None \<Longrightarrow>
     zoomedFileText s dy w zp fileText =
       replaceString fileText
         (getReplaceFromString (replaceSizeNotExist zp) 0)
         (getReplaceWithString (replaceSizeNotExist zp) (min w (initialSize s)))"
  by (simp add: zoomedFileText_def Let_def)

lemma example_match_100:
  "stringMatch ''![[Drawing.excalidraw|100]]''
     (sizeMatchRegExp (localImageZoomParams ''Drawing.excalidraw'' t)) = Some ''100''"
  unfolding localImageZoomParams_def handleZoomParams.simps by code_simp

lemma example_match_20:
  "stringMatch ''![[Drawing.excalidraw|20]]''
     (sizeMatchRegExp (localImageZoomParams ''Drawing.excalidraw'' t)) = Some ''20''"
  unfolding localImageZoomParams_def handleZoomParams.simps by code_simp

lemma example_match_none:
  "stringMatch ''![[Drawing.excalidraw]]''
     (sizeMatchRegExp (localImageZoomParams ''Drawing.excalidraw'' t)) = None"
  unfolding localImageZoomParams_def handleZoomParams.simps by code_simp

lemma example_numbers:
  "parseInt ''100'' = 100" "parseInt ''20'' = 20"
  "numberToString 0 = ''0''" "numberToString 20 = ''20''" "numberToString 75 = ''75''"
  "numberToString 100 = ''100''" "numberToString 125 = ''125''"
  "numberToString 300 = ''300''" "numberToString 500 = ''500''"
  by (simp_all add: parseInt_def digitValue_def numberToString_def decimal.simps digitChar_def)

lemma example_replace:
  "replaceString ''![[Drawing.excalidraw|100]]'' ''![[Drawing.excalidraw|100]]'' ''![[Drawing.excalidraw|125]]''
     = ''![[Drawing.excalidraw|125]]''"
  "replaceString ''![[Drawing.excalidraw|100]]'' ''![[Drawing.excalidraw|100]]'' ''![[Drawing.excalidraw|75]]''
     = ''![[Drawing.excalidraw|75]]''"
  "replaceString ''![[Drawing.excalidraw|20]]'' ''![[Drawing.excalidraw|20]]'' ''![[Drawing.excalidraw|20]]''
     = ''![[Drawing.excalidraw|20]]''"
  "replaceString ''![[Drawing.excalidraw]]'' ''![[Drawing.excalidraw]]'' ''![[Drawing.excalidraw|300]]''
     = ''![[Drawing.excalidraw|300]]''"
  "replaceString ''![[Drawing.excalidraw]]'' ''![[Drawing.excalidraw]]'' ''![[Drawing.excalidraw|500]]''
     = ''![[Drawing.excalidraw|500]]''"
  by code_simp+



text \<open>
  C3. When the text holds no size annotation for the image, the size that \<^verbatim>\<open>handleZoom\<close>
  writes is the smaller of the width that the image reports and the configured initial
  size. With an initial size of 500, a width of 300 writes 300 and a width of 800 writes
  500.
\<close>

theorem initial_size_is_min:
  assumes "src tgt = Some uri"
    and "getActivePaneWithImage h tgt = Inr f"
    and "getZoomParams (Util h) uri (vault p f) tgt = Inr zp"
    and "stringMatch (vault p f) (sizeMatchRegExp zp) = None"
  shows "handleZoom h p evt tgt =
           (None, saveChangedSize (p\<lparr>vaultLog := vaultLog p @ [Read f]\<rparr>) f (vault p f)
              (replaceString (vault p f)
                 (getReplaceFromString (replaceSizeNotExist zp) 0)
                 (getReplaceWithString (replaceSizeNotExist zp)
                    (min (naturalWidth h uri) (initialSize (settings p))))))"
  using handleZoom_resolved [OF assms(1-3), of evt] zoomedFileText_not_exist [OF assms(4)]
  by simp

theorem initial_size_is_min_witness:
  "vault (snd (handleZoom (exampleHost 300) (examplePlugin ''![[Drawing.excalidraw]]'')
        (wheelOver (drawingEmbed ''Drawings/Drawing.excalidraw.md'') (- 100))
        (drawingEmbed ''Drawings/Drawing.excalidraw.md''))) 0 = ''![[Drawing.excalidraw|300]]''
   \<and> vault (snd (handleZoom (exampleHost 800) (examplePlugin ''![[Drawing.excalidraw]]'')
        (wheelOver (drawingEmbed ''Drawings/Drawing.excalidraw.md'') (- 100))
        (drawingEmbed ''Drawings/Drawing.excalidraw.md''))) 0 = ''![[Drawing.excalidraw|500]]''"
proof -
  let ?el = "drawingEmbed ''Drawings/Drawing.excalidraw.md''"
  let ?t = "''![[Drawing.excalidraw]]''"
  let ?zp = "localImageZoomParams ''Drawing.excalidraw'' ?t"
  have zp: "getZoomParams (Util (exampleHost w)) ''data:image/svg+xml;base64,PHN2Zz4=''
              (vault (examplePlugin ?t) 0) ?el = Inr ?zp" for w
    by (simp add: example_params example_name example_vault)
  have m: "stringMatch (vault (examplePlugin ?t) 0) (sizeMatchRegExp ?zp) = None"
    unfolding example_vault by (rule example_match_none)
  have init: "initialSize (settings (examplePlugin t)) = 500" for t
    by (simp add: examplePlugin_def DEFAULT_SETTINGS_def)
  have w: "naturalWidth (exampleHost w) u = w" for w u
    by (simp add: exampleHost_def)
  note ev = example_vault init w example_numbers example_replace localImageZoomParams_def
    saveChangedSize_def vaultModify_def
  from initial_size_is_min [OF example_src example_pane zp [of 300] m, of "wheelOver ?el (- 100)"]
  have a: "vault (snd (handleZoom (exampleHost 300) (examplePlugin ?t)
        (wheelOver ?el (- 100)) ?el)) 0 = ''![[Drawing.excalidraw|300]]''"
    by (simp add: ev)
  from initial_size_is_min [OF example_src example_pane zp [of 800] m, of "wheelOver ?el (- 100)"]
  have b: "vault (snd (handleZoom (exampleHost 800) (examplePlugin ?t)
        (wheelOver ?el (- 100)) ?el)) 0 = ''![[Drawing.excalidraw|500]]''"
    by (simp add: ev)
  from a b show ?thesis by simp
qed

lemma handleZoom_vault_ops:
  "\<exists>ops. vaultLog (snd (handleZoom h p evt tgt)) = vaultLog p @ ops \<and>
     ((ops = [] \<and> vault (snd (handleZoom h p evt tgt)) = vault p)
      \<or> (\<exists>f. ops = [Read f] \<and> vault (snd (handleZoom h p evt tgt)) = vault p)
      \<or> (\<exists>f t. ops = [Read f, Modify f t] \<and> t \<noteq> vault p f
            \<and> vault (snd (handleZoom h p evt tgt)) = (vault p)(f := t)))"
proof (cases "src tgt")
  case None
  from handleZoom_no_src [OF None] show ?thesis by simp
next
  case (Some uri)
  show ?thesis
  proof (cases "getActivePaneWithImage h tgt")
    case (Inl e)
    from handleZoom_no_pane [OF Some Inl] show ?thesis by simp
  next
    case (Inr f)
    show ?thesis
    proof (cases "getZoomParams (Util h) uri (vault p f) tgt")
      case (Inl e)
      from handleZoom_unresolved [OF Some Inr Inl] show ?thesis by simp
    next
      case zp: (Inr zp)
      let ?t = "zoomedFileText (settings p) (deltaY evt) (naturalWidth h uri) zp (vault p f)"
      show ?thesis
      proof (cases "?t = vault p f")
        case True
        with handleZoom_resolved [OF Some Inr zp, of evt] show ?thesis
          by (simp add: saveChangedSize_def)
      next
        case False
        with handleZoom_resolved [OF Some Inr zp, of evt]
        have "vaultLog (snd (handleZoom h p evt tgt)) = vaultLog p @ [Read f, Modify f ?t]"
          and "vault (snd (handleZoom h p evt tgt)) = (vault p)(f := ?t)"
          by (simp_all add: saveChangedSize_def vaultModify_def)
        with False show ?thesis by blast
      qed
    qed
  qed
qed

text \<open>
  C8. A wheel event reads the text of the file at most once and writes it at most once,
  after the read, and a text it writes differs from the text it read. When
  \<^verbatim>\<open>handleZoom\<close> gets as far as computing the new text, it reads once, and it writes
  exactly when the computed text differs from the text read: a replacement that leaves the
  text as it was writes nothing.
\<close>

theorem write_back_frame:
  "(\<exists>ops. vaultLog (onWheel h p evt) = vaultLog p @ ops \<and>
      ((ops = [] \<and> vault (onWheel h p evt) = vault p)
       \<or> (\<exists>f. ops = [Read f] \<and> vault (onWheel h p evt) = vault p)
       \<or> (\<exists>f t. ops = [Read f, Modify f t] \<and> t \<noteq> vault p f
             \<and> vault (onWheel h p evt) = (vault p)(f := t))))
   \<and> (src tgt = Some uri \<and> getActivePaneWithImage h tgt = Inr f
        \<and> getZoomParams (Util h) uri (vault p f) tgt = Inr zp \<longrightarrow>
       (let t = zoomedFileText (settings p) (deltaY evt) (naturalWidth h uri) zp (vault p f)
        in vaultLog (snd (handleZoom h p evt tgt))
             = vaultLog p @ Read f # (if t = vault p f then [] else [Modify f t])
         \<and> vault (snd (handleZoom h p evt tgt))
             = (if t = vault p f then vault p else (vault p)(f := t))))"
proof (intro conjI impI)
  show "\<exists>ops. vaultLog (onWheel h p evt) = vaultLog p @ ops \<and>
      ((ops = [] \<and> vault (onWheel h p evt) = vault p)
       \<or> (\<exists>f. ops = [Read f] \<and> vault (onWheel h p evt) = vault p)
       \<or> (\<exists>f t. ops = [Read f, Modify f t] \<and> t \<noteq> vault p f
             \<and> vault (onWheel h p evt) = (vault p)(f := t)))"
  proof (cases "isKeyHeldDown p \<and> isConfiguredKeyDown (modifierKey (settings p)) evt
                  \<and> nodeName (target evt) = ''IMG''")
    case True
    then have "onWheel h p evt = snd (handleZoom h p evt (target evt))"
      by (simp add: onWheel_def)
    with handleZoom_vault_ops [of h p evt "target evt"] show ?thesis by simp
  next
    case False
    then have "vaultLog (onWheel h p evt) = vaultLog p" "vault (onWheel h p evt) = vault p"
      by (auto simp: onWheel_def onConfigKeyUp_def enableScroll_def)
    then show ?thesis by simp
  qed
next
  assume a: "src tgt = Some uri \<and> getActivePaneWithImage h tgt = Inr f
        \<and> getZoomParams (Util h) uri (vault p f) tgt = Inr zp"
  then have "handleZoom h p evt tgt =
           (None, saveChangedSize (p\<lparr>vaultLog := vaultLog p @ [Read f]\<rparr>) f (vault p f)
                    (zoomedFileText (settings p) (deltaY evt) (naturalWidth h uri) zp (vault p f)))"
    using handleZoom_resolved by blast
  then show "let t = zoomedFileText (settings p) (deltaY evt) (naturalWidth h uri) zp (vault p f)
        in vaultLog (snd (handleZoom h p evt tgt))
             = vaultLog p @ Read f # (if t = vault p f then [] else [Modify f t])
         \<and> vault (snd (handleZoom h p evt tgt))
             = (if t = vault p f then vault p else (vault p)(f := t))"
    by (simp add: Let_def saveChangedSize_def vaultModify_def)
qed

lemma example_zoomed_100:
  "zoomedFileText (settings (examplePlugin t)) (- 100) w
     (localImageZoomParams ''Drawing.excalidraw'' t') ''![[Drawing.excalidraw|100]]''
   = ''![[Drawing.excalidraw|125]]''"
  by (subst zoomedFileText_exist [OF example_match_100])
    (simp add: examplePlugin_def DEFAULT_SETTINGS_def zoomedSize_def localImageZoomParams_def
      example_numbers example_replace)

lemma example_zoomed_20:
  "zoomedFileText (settings (examplePlugin t)) 100 w
     (localImageZoomParams ''Drawing.excalidraw'' t') ''![[Drawing.excalidraw|20]]''
   = ''![[Drawing.excalidraw|20]]''"
  by (subst zoomedFileText_exist [OF example_match_20])
    (simp add: examplePlugin_def DEFAULT_SETTINGS_def zoomedSize_def localImageZoomParams_def
      example_numbers example_replace)

theorem write_back_frame_witness:
  "vaultLog (snd (handleZoom (exampleHost 300) (examplePlugin ''![[Drawing.excalidraw|100]]'')
        (wheelOver (drawingEmbed ''Drawings/Drawing.excalidraw.md'') (- 100))
        (drawingEmbed ''Drawings/Drawing.excalidraw.md'')))
     = [Read 0, Modify 0 ''![[Drawing.excalidraw|125]]'']
   \<and> vaultLog (snd (handleZoom (exampleHost 300) (examplePlugin ''![[Drawing.excalidraw|20]]'')
        (wheelOver (drawingEmbed ''Drawings/Drawing.excalidraw.md'') 100)
        (drawingEmbed ''Drawings/Drawing.excalidraw.md'')))
     = [Read 0]"
proof -
  let ?el = "drawingEmbed ''Drawings/Drawing.excalidraw.md''"
  let ?zp = "localImageZoomParams ''Drawing.excalidraw''"
  have zp: "getZoomParams (Util (exampleHost 300)) ''data:image/svg+xml;base64,PHN2Zz4=''
              (vault (examplePlugin t) 0) ?el = Inr (?zp t)" for t
    by (simp add: example_params example_name example_vault)
  have dy: "deltaY (wheelOver ?el d) = d" for d
    by (simp add: wheelOver_def)
  have lg: "vaultLog (examplePlugin t) = []" for t
    by (simp add: examplePlugin_def)
  from write_back_frame [of "exampleHost 300" "examplePlugin ''![[Drawing.excalidraw|100]]''"
      "wheelOver ?el (- 100)" ?el "''data:image/svg+xml;base64,PHN2Zz4=''" 0
      "?zp ''![[Drawing.excalidraw|100]]''"]
    example_src [of "''Drawings/Drawing.excalidraw.md''"]
    example_pane [of 300 "''Drawings/Drawing.excalidraw.md''"]
    zp [of "''![[Drawing.excalidraw|100]]''"]
  have a: "vaultLog (snd (handleZoom (exampleHost 300) (examplePlugin ''![[Drawing.excalidraw|100]]'')
        (wheelOver ?el (- 100)) ?el)) = [Read 0, Modify 0 ''![[Drawing.excalidraw|125]]'']"
    by (simp add: Let_def dy lg example_vault example_zoomed_100)
  from write_back_frame [of "exampleHost 300" "examplePlugin ''![[Drawing.excalidraw|20]]''"
      "wheelOver ?el 100" ?el "''data:image/svg+xml;base64,PHN2Zz4=''" 0
      "?zp ''![[Drawing.excalidraw|20]]''"]
    example_src [of "''Drawings/Drawing.excalidraw.md''"]
    example_pane [of 300 "''Drawings/Drawing.excalidraw.md''"]
    zp [of "''![[Drawing.excalidraw|20]]''"]
  have b: "vaultLog (snd (handleZoom (exampleHost 300) (examplePlugin ''![[Drawing.excalidraw|20]]'')
        (wheelOver ?el 100) ?el)) = [Read 0]"
    by (simp add: Let_def dy lg example_vault example_zoomed_20)
  from a b show ?thesis by simp
qed

section \<open>A wheel event with \<^verbatim>\<open>deltaY = 0\<close>\<close>

lemma zoomedSize_zero: "zoomedSize step 0 oldSize = oldSize"
  by (simp add: zoomedSize_def)

text \<open>
  With \<^verbatim>\<open>deltaY = 0\<close> the new size is the old one. When the string to replace and the
  template are the same for that size and the template has no \<^verbatim>\<open>$\<close> in it, the text stays
  and nothing is written.
\<close>

lemma zero_delta_identity_without_dollar:
  assumes "src tgt = Some uri"
    and "getActivePaneWithImage h tgt = Inr f"
    and "getZoomParams (Util h) uri (vault p f) tgt = Inr zp"
    and "stringMatch (vault p f) (sizeMatchRegExp zp) = Some g"
    and "deltaY evt = 0"
    and "getReplaceFromString (replaceSizeExist zp) (parseInt g)
           = getReplaceWithString (replaceSizeExist zp) (parseInt g)"
    and "CHR 0x24 \<notin> set (getReplaceWithString (replaceSizeExist zp) (parseInt g))"
  shows "handleZoom h p evt tgt = (None, p\<lparr>vaultLog := vaultLog p @ [Read f]\<rparr>)"
proof -
  have "zoomedFileText (settings p) (deltaY evt) (naturalWidth h uri) zp (vault p f) = vault p f"
    using zoomedFileText_exist [OF assms(4)] assms(5,6) replaceString_same [OF assms(7)]
    by (simp add: zoomedSize_zero)
  with handleZoom_resolved [OF assms(1-3), of evt] show ?thesis
    by (simp add: saveChangedSize_def)
qed

text \<open>
  C10. A wheel event with \<^verbatim>\<open>deltaY = 0\<close> over an image that has a size annotation should
  leave the document as it is. The template that \<^verbatim>\<open>replace\<close> receives holds the name of the
  image, and \<^verbatim>\<open>replace\<close> reads \<^verbatim>\<open>$$\<close> in a template as one \<^verbatim>\<open>$\<close>: for the drawing
  \<^verbatim>\<open>a$$b.excalidraw\<close> with the annotation 100, \<^verbatim>\<open>handleZoom\<close> computes a different text and
  writes it.
\<close>

theorem zero_delta_rewrites_dollar_name:
  "handleZoom (exampleHost 300) (examplePlugin ''![[a$$b.excalidraw|100]]'')
      (wheelOver (drawingEmbed ''Drawings/a$$b.excalidraw.md'') 0)
      (drawingEmbed ''Drawings/a$$b.excalidraw.md'')
   = (None, (examplePlugin ''![[a$$b.excalidraw|100]]'')
        \<lparr>vault := (\<lambda>f. ''![[a$$b.excalidraw|100]]'')(0 := ''![[a$b.excalidraw|100]]''),
         vaultLog := [Read 0, Modify 0 ''![[a$b.excalidraw|100]]'']\<rparr>)"
proof -
  let ?el = "drawingEmbed ''Drawings/a$$b.excalidraw.md''"
  let ?t = "''![[a$$b.excalidraw|100]]''"
  have name: "imageNameAfterSlash ''Drawings/a$$b.excalidraw.md'' = ''a$$b.excalidraw''"
    using imageNameAfterSlash_path [of "''.md''" "''a$$b.excalidraw''" "''Drawings''"] by simp
  have zp: "getZoomParams (Util (exampleHost 300)) ''data:image/svg+xml;base64,PHN2Zz4=''
              (vault (examplePlugin ?t) 0) ?el = Inr (localImageZoomParams ''a$$b.excalidraw'' ?t)"
    by (simp add: example_params name example_vault)
  have m: "stringMatch ?t (sizeMatchRegExp (localImageZoomParams ''a$$b.excalidraw'' ?t)) = Some ''100''"
    unfolding localImageZoomParams_def handleZoomParams.simps by code_simp
  have r: "replaceString ?t ''![[a$$b.excalidraw|100]]'' ''![[a$$b.excalidraw|100]]''
             = ''![[a$b.excalidraw|100]]''"
    by code_simp
  have z: "zoomedFileText (settings (examplePlugin ?t)) 0 300
             (localImageZoomParams ''a$$b.excalidraw'' ?t) ?t = ''![[a$b.excalidraw|100]]''"
    by (subst zoomedFileText_exist [OF m])
      (simp add: zoomedSize_zero localImageZoomParams_def example_numbers r)
  from handleZoom_resolved [OF example_src example_pane zp, of "wheelOver ?el 0"] z
  show ?thesis
    by (simp add: example_vault wheelOver_def exampleHost_def saveChangedSize_def vaultModify_def
        examplePlugin_def)
qed

end
